theory Spec2Isabelle
  imports Main
begin

section \<open>Exceptions and outcomes\<close>

text \<open>
  The Python exceptions that the modelled code can raise. A handler or a constructor
  either completes, leaving a state, or raises, leaving the state it had reached at the
  raise: both are values of \<open>outcome\<close>.
\<close>

datatype error = TypeError | ValueError | IndexError | KeyError | AttributeError
  | TraitError | ControlException | LayerException | ExternalError

datatype 's outcome = Done 's | Raised error 's

fun state_of :: "'s outcome \<Rightarrow> 's" where
  "state_of (Done s) = s"
| "state_of (Raised e s) = s"

fun completed :: "'s outcome \<Rightarrow> bool" where
  "completed (Done s) = True"
| "completed (Raised e s) = False"

section \<open>The time slider: play, pause and the advancing task\<close>

text \<open>
  \<open>time_slider\<close> keeps a check box \<open>play_chk\<close> (the run-flag) and an integer slider
  whose value runs from 1 to \<open>len(labels)\<close>. \<open>play_click\<close> sets the flag and starts a
  thread running \<open>work\<close>; \<open>pause_click\<close> clears the flag. The record holds the flag, the
  slider value and the number of threads that have been started and have not yet left
  their loop.
\<close>

record playback =
  play_chk :: bool
  slider_value :: int
  tasks :: nat

text \<open>
  The body of the loop of \<open>work\<close>:
  \<^verbatim>\<open>if slider.value < len(labels): slider.value += 1  else: slider.value = 1\<close>
  with \<open>n = len(labels)\<close>.
\<close>

definition advance :: "nat \<Rightarrow> int \<Rightarrow> int" where
  "advance n v = (if v < int n then v + 1 else 1)"

text \<open>
  \<open>work\<close> is \<^verbatim>\<open>while play_chk.value: <advance>; time.sleep(time_interval)\<close>. The flag is
  written by the other handlers while the thread sleeps, so the loop is given the values
  of \<open>play_chk.value\<close> that it reads at its successive loop heads; it leaves the loop at
  the first \<open>False\<close>. The result is the slider value after these reads.
\<close>

fun work :: "nat \<Rightarrow> bool list \<Rightarrow> int \<Rightarrow> int" where
  "work n [] v = v"
| "work n (chk # chks) v = (if chk then work n chks (advance n v) else v)"

text \<open>
  \<open>play_click\<close>: \<^verbatim>\<open>play_chk.value = True\<close>, then
  \<^verbatim>\<open>thread = threading.Thread(target=work, args=(slider,)); thread.start()\<close>.
\<close>

definition play_click :: "playback \<Rightarrow> playback" where
  "play_click p = p\<lparr>play_chk := True, tasks := Suc (tasks p)\<rparr>"

definition pause_click :: "playback \<Rightarrow> playback" where
  "pause_click p = p\<lparr>play_chk := False\<rparr>"

text \<open>
  One pass of a running thread through the head of its loop: with the flag set it
  advances the slider, with the flag cleared it leaves the loop and ends.
\<close>

definition work_step :: "nat \<Rightarrow> playback \<Rightarrow> playback" where
  "work_step n p =
     (if tasks p = 0 then p
      else if play_chk p then p\<lparr>slider_value := advance n (slider_value p)\<rparr>
      else p\<lparr>tasks := tasks p - 1\<rparr>)"

datatype play_event = Play | Pause | Step

fun play_step :: "nat \<Rightarrow> play_event \<Rightarrow> playback \<Rightarrow> playback" where
  "play_step n Play p = play_click p"
| "play_step n Pause p = pause_click p"
| "play_step n Step p = work_step n p"

definition play_run :: "nat \<Rightarrow> play_event list \<Rightarrow> playback \<Rightarrow> playback" where
  "play_run n evs p = fold (play_step n) evs p"

text \<open>The panel as \<open>time_slider\<close> builds it: flag clear, slider at its minimum, no thread.\<close>

definition new_playback :: playback where
  "new_playback = \<lparr>play_chk = False, slider_value = 1, tasks = 0\<rparr>"

section \<open>The main toolbar: one toggle per tool\<close>

text \<open>
  \<open>main_toolbar\<close> builds a grid of toggle buttons, one per entry of \<open>tools\<close>, and
  observes the \<open>value\<close> of each with \<open>tool_callback\<close>. The state of the grid is the list
  of the values of \<open>toolbar_grid.children\<close>, in the order of the dictionary \<open>tools\<close>.
  An observer runs when an assignment changes the value it observes, and runs before the
  assignment returns.
\<close>

definition tools :: "(string \<times> string) list" where
  "tools =
    [(''map'', ''basemap''), (''globe'', ''split_map''), (''adjust'', ''planet''),
     (''folder-open'', ''open_data''), (''gears'', ''whitebox''),
     (''fast-forward'', ''timeslider''), (''eraser'', ''eraser''), (''camera'', ''save_map''),
     (''address-book'', ''census''), (''search'', ''search_xyz''),
     (''download'', ''download_osm''), (''question'', ''help'')]"

definition count_true :: "bool list \<Rightarrow> nat" where
  "count_true fs = length (filter id fs)"

text \<open>
  Modelled from the spec: \<open>Map.toolbar_reset\<close>, a method of the map class that is not
  among the sources; the spec describes it as "a set of one boolean flag per sibling tool
  forced to false". \<open>reset_from k fs\<close> is its loop
  \<^verbatim>\<open>for tool in toolbar_grid.children: tool.value = False\<close>
  from the \<open>k\<close>-th tool on. Assigning \<open>False\<close> to a toggle that is \<open>True\<close> changes it, so
  \<open>tool_callback\<close> runs with \<open>change["new"] = False\<close>: its \<open>else\<close> branch does nothing and
  its last statement calls \<open>m.toolbar_reset()\<close> again, which is the inner call
  \<open>reset_from 0\<close>; the loop then goes on with the next tool.
\<close>

function reset_from :: "nat \<Rightarrow> bool list \<Rightarrow> bool list" where
  "reset_from k fs =
     (if k < length fs then
        (if fs ! k then reset_from (Suc k) (reset_from 0 (fs[k := False]))
         else reset_from (Suc k) fs)
      else fs)"
  by pat_completeness auto

lemma count_true_clear:
  "k < length fs \<Longrightarrow> fs ! k \<Longrightarrow> count_true (fs[k := False]) < count_true fs"
proof (induction fs arbitrary: k)
  case Nil
  then show ?case by simp
next
  case (Cons f fs)
  then show ?case by (cases k) (auto simp: count_true_def)
qed

lemma reset_from_dom_count:
  "reset_from_dom (k, fs) \<Longrightarrow> count_true (reset_from k fs) \<le> count_true fs"
proof (induction k fs rule: reset_from.pinduct)
  case (1 k fs)
  show ?case
  proof (cases "k < length fs")
    case False
    then show ?thesis using 1(1) by (simp add: reset_from.psimps)
  next
    case True
    show ?thesis
    proof (cases "fs ! k")
      case f: False
      then show ?thesis using True 1(1) 1(4) by (simp add: reset_from.psimps)
    next
      case t: True
      have a: "count_true (reset_from 0 (fs[k := False])) \<le> count_true (fs[k := False])"
        using 1(2) True t by simp
      have b: "count_true (reset_from (Suc k) (reset_from 0 (fs[k := False])))
            \<le> count_true (reset_from 0 (fs[k := False]))"
        using 1(3) True t by simp
      have c: "count_true (fs[k := False]) < count_true fs"
        using True t by (rule count_true_clear)
      show ?thesis using a b c True t 1(1) by (simp add: reset_from.psimps)
    qed
  qed
qed

termination reset_from
proof (relation "measures [\<lambda>(k, fs). count_true fs, \<lambda>(k, fs). length fs - k]")
  show "wf (measures [\<lambda>(k, fs). count_true fs, \<lambda>(k, fs). length fs - k])"
    by simp
next
  fix k :: nat and fs :: "bool list"
  assume "k < length fs" "fs ! k"
  then show "((0, fs[k := False]), k, fs)
      \<in> measures [\<lambda>(k, fs). count_true fs, \<lambda>(k, fs). length fs - k]"
    by (simp add: count_true_clear)
next
  fix k :: nat and fs :: "bool list"
  assume h: "k < length fs" "fs ! k" "reset_from_dom (0, fs[k := False])"
  have "count_true (reset_from 0 (fs[k := False])) \<le> count_true (fs[k := False])"
    using h(3) by (rule reset_from_dom_count)
  moreover have "count_true (fs[k := False]) < count_true fs"
    using h(1,2) by (rule count_true_clear)
  ultimately show "((Suc k, reset_from 0 (fs[k := False])), k, fs)
      \<in> measures [\<lambda>(k, fs). count_true fs, \<lambda>(k, fs). length fs - k]"
    by simp
next
  fix k :: nat and fs :: "bool list"
  assume "k < length fs" "\<not> fs ! k"
  then show "((Suc k, fs), k, fs)
      \<in> measures [\<lambda>(k, fs). count_true fs, \<lambda>(k, fs). length fs - k]"
    by auto
qed

declare reset_from.simps [simp del]

definition toolbar_reset :: "bool list \<Rightarrow> bool list" where
  "toolbar_reset fs = reset_from 0 fs"

text \<open>
  \<^verbatim>\<open>tool.value = False\<close> for the \<open>j\<close>-th tool of the grid: nothing happens when the value
  is \<open>False\<close> already; otherwise the value changes and \<open>tool_callback\<close> runs with
  \<open>change["new"] = False\<close>, which comes to \<open>m.toolbar_reset()\<close>.
\<close>

definition unset_tool :: "nat \<Rightarrow> bool list \<Rightarrow> bool list" where
  "unset_tool j fs = (if j < length fs \<and> fs ! j then toolbar_reset (fs[j := False]) else fs)"

text \<open>
  The first loop of \<open>tool_callback\<close>:
  \<^verbatim>\<open>for tool in toolbar_grid.children: if tool is not current_tool: tool.value = False\<close>
\<close>

definition unset_others :: "nat \<Rightarrow> bool list \<Rightarrow> bool list" where
  "unset_others i fs = fold (\<lambda>j s. if j \<noteq> i then unset_tool j s else s) [0..<length fs] fs"

text \<open>
  \<open>tool_callback\<close> for the change of the \<open>i\<close>-th toggle to \<open>new\<close>, on the values of the
  grid (the value of the owner is \<open>new\<close> already). With \<open>new\<close> true it clears the other
  toggles, looks the tool's name up and starts the tool (\<open>change_basemap\<close>,
  \<open>split_basemaps\<close>, \<open>open_data_widget\<close>, ...). Starting a tool acts on the map's layers
  and controls and on widgets of the tool's own, never on the grid, so of the started
  tool the model keeps what matters to the grid: \<open>launch name\<close> is \<open>None\<close> when the tool's
  start-up returns and \<open>Some e\<close> when it raises \<open>e\<close>, in which case the callback is left
  at once. The branch of \<open>help\<close> ends with \<^verbatim>\<open>current_tool.value = False\<close>. The last
  statement of the callback, on both branches of \<open>new\<close>, is \<open>m.toolbar_reset()\<close>.
\<close>

definition tool_callback ::
  "(string \<Rightarrow> error option) \<Rightarrow> nat \<Rightarrow> bool \<Rightarrow> bool list \<Rightarrow> bool list outcome" where
  "tool_callback launch i new fs =
     (if new then
        (let fs1 = unset_others i fs;
             tool_name = snd (tools ! i)
         in case launch tool_name of
              Some e \<Rightarrow> Raised e fs1
            | None \<Rightarrow>
                Done (toolbar_reset (if tool_name = ''help'' then unset_tool i fs1 else fs1)))
      else Done (toolbar_reset fs))"

section \<open>The map and its controls and layers\<close>

text \<open>
  The map is a collaborator of this module. Its controls and layers are Python objects,
  compared by identity: a control is its identity and its kind, a layer is a reference
  into \<open>layer_objs\<close>, where the fields of the layer objects live (handlers of this module
  write \<open>url\<close> and \<open>name\<close> of layers that several places refer to). \<open>toolbar\<close> holds the
  values of the toggles of the main toolbar, \<open>tool_control\<close>, \<open>basemap_ctrl\<close> and
  \<open>slider_ctrl\<close> are the attributes of the same names, \<open>bounds\<close> is what
  \<open>zoom_to_bounds\<close> was last given.
\<close>

type_synonym ref = nat

datatype control_kind = WidgetControl | SplitMapControl ref ref | ZoomControl
  | FullScreenControl | ScaleControl

datatype control = Control (control_id: nat) (control_kind: control_kind)

typedecl coordinate

record layer_obj =
  name :: string
  url :: string

record lmap =
  controls :: "control list"
  layers :: "ref list"
  layer_objs :: "ref \<Rightarrow> layer_obj"
  toolbar :: "bool list"
  tool_control :: "control option"
  basemap_ctrl :: "control option"
  slider_ctrl :: "control option"
  bounds :: "coordinate list option"

text \<open>
  \<open>add_control\<close>, \<open>remove_control\<close>, \<open>add_layer\<close> and \<open>substitute_layer\<close> of the map
  raise when the control or layer is already, respectively not, on the map; the module
  guards its calls with \<^verbatim>\<open>in m.controls\<close> for that reason. An assignment to
  \<open>m.controls\<close> or \<open>m.layers\<close> replaces the sequence.
\<close>

definition add_control :: "control \<Rightarrow> lmap \<Rightarrow> lmap outcome" where
  "add_control c m =
     (if c \<in> set (controls m) then Raised ControlException m
      else Done (m\<lparr>controls := controls m @ [c]\<rparr>))"

definition remove_control :: "control \<Rightarrow> lmap \<Rightarrow> lmap outcome" where
  "remove_control c m =
     (if c \<notin> set (controls m) then Raised ControlException m
      else Done (m\<lparr>controls := filter (\<lambda>x. x \<noteq> c) (controls m)\<rparr>))"

definition clear_controls :: "lmap \<Rightarrow> lmap" where
  "clear_controls m = m\<lparr>controls := []\<rparr>"

definition add_layer :: "ref \<Rightarrow> lmap \<Rightarrow> lmap outcome" where
  "add_layer l m =
     (if l \<in> set (layers m) then Raised LayerException m
      else Done (m\<lparr>layers := layers m @ [l]\<rparr>))"

definition clear_layers :: "lmap \<Rightarrow> lmap" where
  "clear_layers m = m\<lparr>layers := []\<rparr>"

definition substitute_layer :: "ref \<Rightarrow> ref \<Rightarrow> lmap \<Rightarrow> lmap outcome" where
  "substitute_layer old new m =
     (if old \<notin> set (layers m) then Raised LayerException m
      else Done (m\<lparr>layers := map (\<lambda>l. if l = old then new else l) (layers m)\<rparr>))"

text \<open>\<open>m.toolbar_reset()\<close>, on the map: it acts on the toggles of the main toolbar.\<close>

definition map_toolbar_reset :: "lmap \<Rightarrow> lmap" where
  "map_toolbar_reset m = m\<lparr>toolbar := toolbar_reset (toolbar m)\<rparr>"

section \<open>The tool panel: hover, pin and close\<close>

text \<open>
  \<open>tool_template\<close> builds a panel \<open>toolbar_widget\<close> whose children are either the icon
  alone, \<^verbatim>\<open>[toolbar_button]\<close>, or header and body,
  \<^verbatim>\<open>[toolbar_header, toolbar_footer]\<close>. The state holds the children shown, the values of
  the two toggle buttons (\<open>toolbar_button\<close> is the pin), whether \<open>toolbar_widget.close()\<close>
  has run, and the map \<open>m\<close> the panel was given (\<open>None\<close> when it was given none).
\<close>

datatype widget = Toolbar_button | Toolbar_header | Toolbar_footer

record tool_state =
  children :: "widget list"
  toolbar_button :: bool
  close_button :: bool
  closed :: bool
  the_map :: "lmap option"

text \<open>
  The part of \<open>close_btn_click\<close> that detaches the panel's control:
  \<^verbatim>\<open>if m.tool_control is not None and m.tool_control in m.controls:\<close>
  \<^verbatim>\<open>    m.remove_control(m.tool_control); m.tool_control = None\<close>
\<close>

definition detach_tool_control :: "lmap \<Rightarrow> lmap outcome" where
  "detach_tool_control m =
     (case tool_control m of
        None \<Rightarrow> Done m
      | Some c \<Rightarrow>
          if c \<in> set (controls m) then
            (case remove_control c m of
               Raised e m' \<Rightarrow> Raised e m'
             | Done m' \<Rightarrow> Done (m'\<lparr>tool_control := None\<rparr>))
          else Done m)"

text \<open>
  The observers of the two buttons. Each is called with \<open>change["new"]\<close> and the state in
  which the observed value is already the new one. An assignment inside an observer to
  the other button's value calls that button's observer when the value changes, hence the
  mutual recursion: \<open>toolbar_btn_click\<close> assigns \<^verbatim>\<open>close_button.value = False\<close> and
  \<open>close_btn_click\<close> assigns \<^verbatim>\<open>toolbar_button.value = False\<close>.
\<close>

function toolbar_btn_click :: "bool \<Rightarrow> tool_state \<Rightarrow> tool_state outcome"
  and close_btn_click :: "bool \<Rightarrow> tool_state \<Rightarrow> tool_state outcome" where
  "toolbar_btn_click new s =
     (if new then
        (case (if close_button s then close_btn_click False (s\<lparr>close_button := False\<rparr>)
               else Done s) of
           Raised e s' \<Rightarrow> Raised e s'
         | Done s' \<Rightarrow> Done (s'\<lparr>children := [Toolbar_header, Toolbar_footer]\<rparr>))
      else if \<not> close_button s then Done (s\<lparr>children := [Toolbar_button]\<rparr>)
      else Done s)"
| "close_btn_click new s =
     (if new then
        (case (if toolbar_button s then toolbar_btn_click False (s\<lparr>toolbar_button := False\<rparr>)
               else Done s) of
           Raised e s' \<Rightarrow> Raised e s'
         | Done s' \<Rightarrow>
             (case the_map s' of
                None \<Rightarrow> Done (s'\<lparr>closed := True\<rparr>)
              | Some m \<Rightarrow>
                  (case detach_tool_control (map_toolbar_reset m) of
                     Raised e m' \<Rightarrow> Raised e (s'\<lparr>the_map := Some m'\<rparr>)
                   | Done m' \<Rightarrow> Done (s'\<lparr>the_map := Some m', closed := True\<rparr>))))
      else Done s)"
  by pat_completeness auto
termination
  by (relation "measure (\<lambda>x. case x of Inl (new, s) \<Rightarrow> if new then 1 else 0
                                     | Inr (new, s) \<Rightarrow> if new then 1 else 0)") auto

declare toolbar_btn_click.simps [simp del] close_btn_click.simps [simp del]

text \<open>
  \<open>handle_toolbar_event\<close>, on the \<open>type\<close> of the DOM event. On \<open>mouseleave\<close> with the
  pin off it shows the icon alone and assigns \<open>False\<close> to both buttons.
\<close>

definition handle_toolbar_event :: "string \<Rightarrow> tool_state \<Rightarrow> tool_state outcome" where
  "handle_toolbar_event event_type s =
     (if event_type = ''mouseenter'' then
        Done (s\<lparr>children := [Toolbar_header, Toolbar_footer]\<rparr>)
      else if event_type = ''mouseleave'' then
        (if \<not> toolbar_button s then
           (case (let s1 = s\<lparr>children := [Toolbar_button]\<rparr>
                  in if toolbar_button s1
                     then toolbar_btn_click False (s1\<lparr>toolbar_button := False\<rparr>)
                     else Done s1) of
              Raised e s' \<Rightarrow> Raised e s'
            | Done s2 \<Rightarrow>
                if close_button s2 then close_btn_click False (s2\<lparr>close_button := False\<rparr>)
                else Done s2)
         else Done s)
      else Done s)"

text \<open>
  The widgets as \<open>tool_template\<close> creates them, before its last statements: the panel
  shows the icon alone and both buttons are off.
\<close>

definition new_tool_state :: "lmap option \<Rightarrow> tool_state" where
  "new_tool_state m =
     \<lparr>children = [Toolbar_button], toolbar_button = False, close_button = False,
      closed = False, the_map = m\<rparr>"

text \<open>
  The last statements of \<open>tool_template\<close>: \<^verbatim>\<open>toolbar_button.value = True\<close>, which runs
  \<open>toolbar_btn_click\<close>, and with a map the new control \<open>toolbar_control\<close> is added unless
  it is among the map's controls, and stored in \<open>m.tool_control\<close>.
\<close>

definition tool_template :: "control \<Rightarrow> lmap option \<Rightarrow> tool_state outcome" where
  "tool_template toolbar_control m =
     (case toolbar_btn_click True ((new_tool_state m)\<lparr>toolbar_button := True\<rparr>) of
        Raised e s \<Rightarrow> Raised e s
      | Done s \<Rightarrow>
          (case m of
             None \<Rightarrow> Done s
           | Some mp \<Rightarrow>
               if toolbar_control \<notin> set (controls mp) then
                 (case add_control toolbar_control mp of
                    Raised e mp' \<Rightarrow> Raised e (s\<lparr>the_map := Some mp'\<rparr>)
                  | Done mp' \<Rightarrow>
                      Done (s\<lparr>the_map := Some (mp'\<lparr>tool_control := Some toolbar_control\<rparr>)\<rparr>))
               else Done s))"

text \<open>
  What reaches a panel: a DOM event of the pointer, or a click on one of the two toggle
  buttons, which flips the button's value and runs its observer.
\<close>

datatype panel_event = Dom_event string | Toggle_toolbar_button | Toggle_close_button

fun panel_step :: "panel_event \<Rightarrow> tool_state \<Rightarrow> tool_state outcome" where
  "panel_step (Dom_event t) s = handle_toolbar_event t s"
| "panel_step Toggle_toolbar_button s =
     toolbar_btn_click (\<not> toolbar_button s) (s\<lparr>toolbar_button := \<not> toolbar_button s\<rparr>)"
| "panel_step Toggle_close_button s =
     close_btn_click (\<not> close_button s) (s\<lparr>close_button := \<not> close_button s\<rparr>)"

fun panel_run :: "panel_event list \<Rightarrow> tool_state \<Rightarrow> tool_state outcome" where
  "panel_run [] s = Done s"
| "panel_run (ev # evs) s =
     (case panel_step ev s of Raised e s' \<Rightarrow> Raised e s' | Done s' \<Rightarrow> panel_run evs s')"

text \<open>The two displayed states of the spec, read off the children of the panel.\<close>

definition is_expanded :: "tool_state \<Rightarrow> bool" where
  "is_expanded s = (children s = [Toolbar_header, Toolbar_footer])"

definition is_collapsed :: "tool_state \<Rightarrow> bool" where
  "is_collapsed s = (children s = [Toolbar_button])"

text \<open>
  The module keeps no record of where the pointer is. In the spec's words the pointer is
  over the panel between a pointer-enter and the matching pointer-leave; on a history of
  events that is: the last pointer event was \<open>mouseenter\<close>.
\<close>

definition pointer_over :: "panel_event list \<Rightarrow> bool" where
  "pointer_over evs =
     fold (\<lambda>ev over. case ev of
             Dom_event t \<Rightarrow> if t = ''mouseenter'' then True
                            else if t = ''mouseleave'' then False else over
           | _ \<Rightarrow> over) evs False"

text \<open>A panel is detached when its control is not among the controls of its map.\<close>

definition detached :: "tool_state \<Rightarrow> bool" where
  "detached s =
     (case the_map s of
        None \<Rightarrow> True
      | Some m \<Rightarrow> (case tool_control m of None \<Rightarrow> True | Some c \<Rightarrow> c \<notin> set (controls m)))"

definition map_controls :: "tool_state \<Rightarrow> control list" where
  "map_controls s = (case the_map s of None \<Rightarrow> [] | Some m \<Rightarrow> controls m)"

text \<open>The control of the panel, as the map remembers it in \<open>tool_control\<close>.\<close>

definition panel_control :: "tool_state \<Rightarrow> control option" where
  "panel_control s = (case the_map s of None \<Rightarrow> None | Some m \<Rightarrow> tool_control m)"

section \<open>The basemap switcher\<close>

text \<open>
  \<open>leafmap_basemaps\<close> (a dictionary from names to layers) and \<open>get_xyz_dict()\<close> come from
  a module that is not among the sources; they are parameters here, as association
  lists. An entry of \<open>xyz_dict\<close> is kept as its \<open>bounds\<close>, when it has that key.
  \<open>zoom_to_bounds\<close> is a method of the map; the model records the bounds it is given.
\<close>

type_synonym bbox = "(coordinate \<times> coordinate) \<times> (coordinate \<times> coordinate)"

definition zoom_to_bounds :: "coordinate list \<Rightarrow> lmap \<Rightarrow> lmap" where
  "zoom_to_bounds bs m = m\<lparr>bounds := Some bs\<rparr>"

text \<open>
  \<open>change_basemap\<close>: the layer list is normalised,
  \<^verbatim>\<open>if len(layers) == 1: layers = [layers[0]] + [leafmap_basemaps["OpenStreetMap"]]\<close>
  \<^verbatim>\<open>elif len(layers) > 1 and (layers[1].name != "OpenStreetMap"):\<close>
  \<^verbatim>\<open>    layers = [layers[0]] + [leafmap_basemaps["OpenStreetMap"]] + layers[1:]\<close>
  and assigned to \<open>m.layers\<close>; then the dropdown is built with the value
  \<open>"OpenStreetMap"\<close>, which must be one of its options (the keys of
  \<open>leafmap_basemaps\<close>), and the new control \<open>basemap_control\<close> is added to the map and
  stored in \<open>m.basemap_ctrl\<close>.
\<close>

definition change_basemap :: "(string \<times> ref) list \<Rightarrow> control \<Rightarrow> lmap \<Rightarrow> lmap outcome" where
  "change_basemap leafmap_basemaps basemap_control m =
     (case (if length (layers m) = 1 then
              (case map_of leafmap_basemaps ''OpenStreetMap'' of
                 None \<Rightarrow> Inl KeyError
               | Some osm \<Rightarrow> Inr ([layers m ! 0] @ [osm]))
            else if length (layers m) > 1
                    \<and> name (layer_objs m (layers m ! 1)) \<noteq> ''OpenStreetMap'' then
              (case map_of leafmap_basemaps ''OpenStreetMap'' of
                 None \<Rightarrow> Inl KeyError
               | Some osm \<Rightarrow> Inr ([layers m ! 0] @ [osm] @ drop 1 (layers m)))
            else Inr (layers m)) of
        Inl e \<Rightarrow> Raised e m
      | Inr ls \<Rightarrow>
          (let m1 = m\<lparr>layers := ls\<rparr>
           in if ''OpenStreetMap'' \<notin> set (map fst leafmap_basemaps) then Raised TraitError m1
              else (case add_control basemap_control m1 of
                      Raised e m2 \<Rightarrow> Raised e m2
                    | Done m2 \<Rightarrow> Done (m2\<lparr>basemap_ctrl := Some basemap_control\<rparr>))))"

text \<open>
  \<open>on_click\<close>, the observer of the dropdown, with \<open>change["new"]\<close> as \<open>basemap_name\<close>:
  \<^verbatim>\<open>old_basemap = m.layers[1]\<close>
  \<^verbatim>\<open>m.substitute_layer(old_basemap, leafmap_basemaps[basemap_name])\<close>
  and, when \<open>xyz_dict\<close> has bounds for the name, \<open>m.zoom_to_bounds\<close> with
  \<^verbatim>\<open>[bounds[0][1], bounds[0][0], bounds[1][1], bounds[1][0]]\<close>.
\<close>

definition on_click ::
  "(string \<times> ref) list \<Rightarrow> (string \<times> bbox option) list \<Rightarrow> string \<Rightarrow> lmap \<Rightarrow> lmap outcome" where
  "on_click leafmap_basemaps xyz_dict basemap_name m =
     (if length (layers m) \<le> 1 then Raised IndexError m
      else
        (let old_basemap = layers m ! 1
         in case map_of leafmap_basemaps basemap_name of
              None \<Rightarrow> Raised KeyError m
            | Some new_basemap \<Rightarrow>
                (case substitute_layer old_basemap new_basemap m of
                   Raised e m1 \<Rightarrow> Raised e m1
                 | Done m1 \<Rightarrow>
                     (case map_of xyz_dict basemap_name of
                        None \<Rightarrow> Done m1
                      | Some None \<Rightarrow> Done m1
                      | Some (Some ((a, b), (c, d))) \<Rightarrow> Done (zoom_to_bounds [b, a, d, c] m1)))))"

section \<open>The split-panel map\<close>

text \<open>
  \<open>split_basemaps\<close> and the handlers it defines share its local variables. The state is
  the map together with these variables: \<open>saved_controls\<close> and \<open>saved_layers\<close> are the
  variables \<open>controls\<close> and \<open>layers\<close>, which hold the (immutable) tuples \<open>m.controls\<close> and
  \<open>m.layers\<close> read on entry, \<open>layers_dict\<close> is the dictionary of the dropdowns and
  \<open>split_control\<close> the control found by the loop at the end of \<open>split_basemaps\<close>.
\<close>

record split_state =
  split_map :: lmap
  saved_controls :: "control list"
  saved_layers :: "ref list"
  layers_dict :: "(string \<times> ref) list"
  split_control :: "control option"

text \<open>Successive calls of \<open>m.add_control\<close>; the first that raises ends the sequence.\<close>

fun add_controls :: "control list \<Rightarrow> lmap \<Rightarrow> lmap outcome" where
  "add_controls [] m = Done m"
| "add_controls (c # cs) m =
     (case add_control c m of Raised e m' \<Rightarrow> Raised e m' | Done m' \<Rightarrow> add_controls cs m')"

text \<open>\<^verbatim>\<open>isinstance(ctrl, ipyleaflet.SplitMapControl)\<close>\<close>

fun is_split_control :: "control \<Rightarrow> bool" where
  "is_split_control (Control i (SplitMapControl l r)) = True"
| "is_split_control (Control i k) = False"

text \<open>
  \<open>split_basemaps\<close>. Without \<open>layers_dict\<close> the dictionary is \<open>leafmap_basemaps\<close> less
  its WMS layers (\<open>is_wms\<close> is the test \<open>isinstance(..., ipyleaflet.WMSLayer)\<close>).
  \<open>keys[0]\<close> and \<open>keys[-1]\<close> raise \<open>IndexError\<close> on an empty dictionary, and the
  lookups of the two names raise \<open>KeyError\<close>. Seven new controls are added, with the
  identities \<open>new_id\<close>, ..., \<open>new_id + 6\<close>: the split control, the two dropdowns, the
  close button, zoom, full screen and scale.
\<close>

definition split_entry ::
  "(string \<times> ref) list \<Rightarrow> (ref \<Rightarrow> bool) \<Rightarrow> (string \<times> ref) list option \<Rightarrow> lmap \<Rightarrow> split_state" where
  "split_entry leafmap_basemaps is_wms layers_dict_arg m =
     \<lparr>split_map = clear_controls m, saved_controls = controls m, saved_layers = layers m,
      layers_dict = (case layers_dict_arg of
                       None \<Rightarrow> filter (\<lambda>(key, l). \<not> is_wms l) leafmap_basemaps
                     | Some d \<Rightarrow> d),
      split_control = None\<rparr>"

definition split_basemaps ::
  "(string \<times> ref) list \<Rightarrow> (ref \<Rightarrow> bool) \<Rightarrow> nat \<Rightarrow>
   (string \<times> ref) list option \<Rightarrow> string option \<Rightarrow> string option \<Rightarrow> lmap \<Rightarrow> split_state outcome" where
  "split_basemaps leafmap_basemaps is_wms new_id layers_dict_arg left_name right_name m =
     (let s0 = split_entry leafmap_basemaps is_wms layers_dict_arg m;
          keys = map fst (layers_dict s0)
      in if (left_name = None \<or> right_name = None) \<and> keys = [] then Raised IndexError s0
         else
           (case map_of (layers_dict s0) (case left_name of None \<Rightarrow> hd keys | Some n \<Rightarrow> n) of
              None \<Rightarrow> Raised KeyError s0
            | Some left_layer \<Rightarrow>
                (case map_of (layers_dict s0)
                        (case right_name of None \<Rightarrow> last keys | Some n \<Rightarrow> n) of
                   None \<Rightarrow> Raised KeyError s0
                 | Some right_layer \<Rightarrow>
                     (case add_controls
                             [Control new_id (SplitMapControl left_layer right_layer),
                              Control (new_id + 1) WidgetControl,
                              Control (new_id + 2) WidgetControl,
                              Control (new_id + 3) WidgetControl,
                              Control (new_id + 4) ZoomControl,
                              Control (new_id + 5) FullScreenControl,
                              Control (new_id + 6) ScaleControl] (split_map s0) of
                        Raised e m' \<Rightarrow> Raised e (s0\<lparr>split_map := m'\<rparr>)
                      | Done m' \<Rightarrow>
                          Done (s0\<lparr>split_map := m',
                                   split_control := find is_split_control (controls m')\<rparr>)))))"

text \<open>
  The observer of the close button of the split map:
  \<^verbatim>\<open>if change["new"]: m.controls = controls; m.clear_layers(); m.layers = layers\<close>
\<close>

definition split_close_btn_click :: "bool \<Rightarrow> split_state \<Rightarrow> split_state" where
  "split_close_btn_click new s =
     (if new then
        s\<lparr>split_map :=
            (clear_layers ((split_map s)\<lparr>controls := saved_controls s\<rparr>))\<lparr>layers := saved_layers s\<rparr>\<rparr>
      else s)"

text \<open>
  \<open>left_change\<close> and \<open>right_change\<close> write the \<open>url\<close> of the layer object that the split
  control holds:
  \<^verbatim>\<open>split_control.left_layer.url = layers_dict[left_dropdown.value].url\<close>
  The layer object may be one that \<open>m.layers\<close> refers to as well. Without a split
  control (\<open>split_control\<close> is \<open>None\<close>) the attribute access raises.
\<close>

definition set_url :: "ref \<Rightarrow> string \<Rightarrow> lmap \<Rightarrow> lmap" where
  "set_url l u m = m\<lparr>layer_objs := (layer_objs m)(l := (layer_objs m l)\<lparr>url := u\<rparr>)\<rparr>"

definition left_change :: "string \<Rightarrow> split_state \<Rightarrow> split_state outcome" where
  "left_change dropdown_value s =
     (case split_control s of
        Some (Control i (SplitMapControl left_layer right_layer)) \<Rightarrow>
          (case map_of (layers_dict s) dropdown_value of
             None \<Rightarrow> Raised KeyError s
           | Some l \<Rightarrow>
               Done (s\<lparr>split_map := set_url left_layer (url (layer_objs (split_map s) l)) (split_map s)\<rparr>))
      | _ \<Rightarrow> Raised AttributeError s)"

definition right_change :: "string \<Rightarrow> split_state \<Rightarrow> split_state outcome" where
  "right_change dropdown_value s =
     (case split_control s of
        Some (Control i (SplitMapControl left_layer right_layer)) \<Rightarrow>
          (case map_of (layers_dict s) dropdown_value of
             None \<Rightarrow> Raised KeyError s
           | Some l \<Rightarrow>
               Done (s\<lparr>split_map := set_url right_layer (url (layer_objs (split_map s) l)) (split_map s)\<rparr>))
      | _ \<Rightarrow> Raised AttributeError s)"

text \<open>
  What can happen while the split map is open: a choice in one of the dropdowns, or
  any other code adding and removing controls and layers of the map. A handler that
  raises leaves the state it had reached, and the next event finds that state.
\<close>

datatype split_event = Left_dropdown string | Right_dropdown string
  | Map_add_control control | Map_remove_control control | Map_add_layer ref
  | Map_set_layers "ref list"

fun lift_map :: "split_state \<Rightarrow> lmap outcome \<Rightarrow> split_state outcome" where
  "lift_map s (Done m) = Done (s\<lparr>split_map := m\<rparr>)"
| "lift_map s (Raised e m) = Raised e (s\<lparr>split_map := m\<rparr>)"

fun split_step :: "split_event \<Rightarrow> split_state \<Rightarrow> split_state outcome" where
  "split_step (Left_dropdown v) s = left_change v s"
| "split_step (Right_dropdown v) s = right_change v s"
| "split_step (Map_add_control c) s = lift_map s (add_control c (split_map s))"
| "split_step (Map_remove_control c) s = lift_map s (remove_control c (split_map s))"
| "split_step (Map_add_layer l) s = lift_map s (add_layer l (split_map s))"
| "split_step (Map_set_layers ls) s = Done (s\<lparr>split_map := (split_map s)\<lparr>layers := ls\<rparr>\<rparr>)"

definition split_run :: "split_event list \<Rightarrow> split_state \<Rightarrow> split_state" where
  "split_run evs s = fold (\<lambda>ev s. state_of (split_step ev s)) evs s"

section \<open>The time slider: its arguments\<close>

text \<open>
  \<open>time_slider\<close> is given \<open>layers_dict\<close>, which may be any Python object, and \<open>labels\<close>,
  a list or \<open>None\<close>. A dictionary is an association list in the order of its keys.
\<close>

datatype layers_arg = Dict "(string \<times> ref) list" | Not_a_dict

text \<open>
  \<^verbatim>\<open>if len(layers_dict) == 0: layers_dict = planet_monthly_tiles()\<close>
  \<open>planet_monthly_tiles\<close> is a function of a module that is not among the sources; what
  its call gives, a dictionary or an exception, is a parameter.
\<close>

definition effective_layers_dict ::
  "error + (string \<times> ref) list \<Rightarrow> (string \<times> ref) list \<Rightarrow> error + (string \<times> ref) list" where
  "effective_layers_dict planet_monthly_tiles d =
     (if length d = 0 then planet_monthly_tiles else Inr d)"

text \<open>
  \<open>time_slider\<close>, up to the point where the map has its new layer and control:
  the test \<^verbatim>\<open>isinstance(layers_dict, dict)\<close>, the replacement of an empty dictionary, the
  default of \<open>labels\<close> (the keys), the comparison of the lengths, the slider from 1 to
  \<open>len(labels)\<close> (which cannot be built over an empty range), \<^verbatim>\<open>m.add_layer(layer)\<close>
  for the layer of the first key, and the new control \<open>slider_control\<close>, added and
  stored in \<open>m.slider_ctrl\<close>.
\<close>

definition time_slider ::
  "error + (string \<times> ref) list \<Rightarrow> control \<Rightarrow> lmap \<Rightarrow> layers_arg \<Rightarrow> string list option
   \<Rightarrow> lmap outcome" where
  "time_slider planet_monthly_tiles slider_control m layers_dict_arg labels_arg =
     (case layers_dict_arg of
        Not_a_dict \<Rightarrow> Raised TypeError m
      | Dict d0 \<Rightarrow>
          (case effective_layers_dict planet_monthly_tiles d0 of
             Inl e \<Rightarrow> Raised e m
           | Inr d \<Rightarrow>
               (let labels = (case labels_arg of None \<Rightarrow> map fst d | Some ls \<Rightarrow> ls)
                in if length labels \<noteq> length d then Raised ValueError m
                   else if length labels < 1 then Raised TraitError m
                   else
                     (case d of
                        [] \<Rightarrow> Raised IndexError m
                      | (key, layer) # rest \<Rightarrow>
                          (case add_layer layer m of
                             Raised e m1 \<Rightarrow> Raised e m1
                           | Done m1 \<Rightarrow>
                               (case add_control slider_control m1 of
                                  Raised e m2 \<Rightarrow> Raised e m2
                                | Done m2 \<Rightarrow> Done (m2\<lparr>slider_ctrl := Some slider_control\<rparr>)))))))"

section \<open>Opening a raster: the numeric text fields\<close>

text \<open>
  In the raster branch of \<open>ok_cancel_clicked\<close> (of \<open>open_data_widget\<close>) the four
  variables \<open>band\<close>, \<open>vis_min\<close>, \<open>vis_max\<close> and \<open>vis_nodata\<close> start as \<open>None\<close>, are
  assigned inside one \<open>try\<close> block, and are passed to \<open>m.add_local_tile\<close> as \<open>band\<close>,
  \<open>vmin\<close>, \<open>vmax\<close> and \<open>nodata\<close>.
\<close>

record 'f raster_vis =
  band :: "int option"
  vis_min :: "'f option"
  vis_max :: "'f option"
  vis_nodata :: "'f option"

text \<open>
  One statement of the \<open>try\<close> block,
  \<^verbatim>\<open>if len(text) > 0: variable = conv(text)\<close>
  on the variables \<open>r\<close> assigned so far: \<open>Inr\<close> when the statement completes, \<open>Inl\<close> when
  the conversion raises, with the variables as they are at that moment.
\<close>

definition convert_field ::
  "string \<Rightarrow> (string \<Rightarrow> 'a option) \<Rightarrow> ('a \<Rightarrow> 'r \<Rightarrow> 'r) \<Rightarrow> 'r \<Rightarrow> 'r + 'r" where
  "convert_field text conv store r =
     (if length text > 0 then
        (case conv text of None \<Rightarrow> Inl r | Some v \<Rightarrow> Inr (store v r))
      else Inr r)"

text \<open>The next statement of the block runs when the ones before it have completed.\<close>

fun then_field :: "'r + 'r \<Rightarrow> ('r \<Rightarrow> 'r + 'r) \<Rightarrow> 'r + 'r" where
  "then_field (Inl r) f = Inl r"
| "then_field (Inr r) f = f r"

text \<open>\<^verbatim>\<open>except: pass\<close>: whatever was raised is dropped, and the code after the block runs.\<close>

fun after_try :: "'r + 'r \<Rightarrow> 'r" where
  "after_try (Inl r) = r"
| "after_try (Inr r) = r"

text \<open>
  The block, with Python's \<open>int\<close> and \<open>float\<close> as the parameters \<open>to_int\<close> and
  \<open>to_float\<close> (\<open>None\<close> where they raise), on the texts of the four entry fields:
  \<^verbatim>\<open>try:\<close>
  \<^verbatim>\<open>    if len(bands.value) > 0: band = int(bands.value)\<close>
  \<^verbatim>\<open>    if len(vmin.value) > 0: vis_min = float(vmin.value)\<close>
  \<^verbatim>\<open>    if len(vmax.value) > 0: vis_max = float(vmax.value)\<close>
  \<^verbatim>\<open>    if len(nodata.value) > 0: vis_nodata = float(nodata.value)\<close>
  \<^verbatim>\<open>except: pass\<close>
\<close>

definition raster_vis_params ::
  "(string \<Rightarrow> int option) \<Rightarrow> (string \<Rightarrow> 'f option) \<Rightarrow> string \<Rightarrow> string \<Rightarrow> string \<Rightarrow> string
   \<Rightarrow> 'f raster_vis" where
  "raster_vis_params to_int to_float bands vmin vmax nodata =
     after_try
       (then_field
          (then_field
             (then_field
                (convert_field bands to_int (\<lambda>v r. r\<lparr>band := Some v\<rparr>)
                   \<lparr>band = None, vis_min = None, vis_max = None, vis_nodata = None\<rparr>)
                (convert_field vmin to_float (\<lambda>v r. r\<lparr>vis_min := Some v\<rparr>)))
             (convert_field vmax to_float (\<lambda>v r. r\<lparr>vis_max := Some v\<rparr>)))
          (convert_field nodata to_float (\<lambda>v r. r\<lparr>vis_nodata := Some v\<rparr>)))"

text \<open>
  A field converts when it is empty or its text is accepted; the value of a field taken
  by itself is unset for an empty or rejected text and the converted text otherwise.
\<close>

definition converts :: "(string \<Rightarrow> 'a option) \<Rightarrow> string \<Rightarrow> bool" where
  "converts conv text = (text = [] \<or> conv text \<noteq> None)"

definition field_value :: "(string \<Rightarrow> 'a option) \<Rightarrow> string \<Rightarrow> 'a option" where
  "field_value conv text = (if text = [] then None else conv text)"

subsection \<open>Python's \<open>int\<close> and \<open>float\<close> on ASCII text\<close>

text \<open>
  For the examples the two built-in conversions are written out for ASCII text. Both
  strip white space at the two ends and take an optional sign. \<open>int\<close> then wants decimal
  digits, where single underscores may stand between digits. \<open>float\<close> wants \<open>inf\<close>,
  \<open>infinity\<close> or \<open>nan\<close> in any case, or digits with an optional point and an optional
  exponent. A finite result \<open>Finite m e\<close> is the decimal number \<open>m * 10 ^ e\<close> that the text
  denotes; Python rounds it to a double, which is not modelled.
\<close>

definition is_space :: "char \<Rightarrow> bool" where
  "is_space c = (c \<in> set [CHR '' '', CHR 0x09, CHR 0x0A, CHR 0x0B, CHR 0x0C, CHR 0x0D,
                          CHR 0x1C, CHR 0x1D, CHR 0x1E, CHR 0x1F])"

definition strip :: "string \<Rightarrow> string" where
  "strip s = rev (dropWhile is_space (rev (dropWhile is_space s)))"

definition digit_val :: "char \<Rightarrow> nat option" where
  "digit_val c =
     map_of [(CHR ''0'', 0), (CHR ''1'', 1), (CHR ''2'', 2), (CHR ''3'', 3), (CHR ''4'', 4),
             (CHR ''5'', 5), (CHR ''6'', 6), (CHR ''7'', 7), (CHR ''8'', 8), (CHR ''9'', 9)] c"

text \<open>
  The rest of a run of digits after its first digit: the value so far and the number of
  digits so far, then the characters left. An underscore must be followed by a digit.
\<close>

fun digitpart_from :: "nat \<times> nat \<Rightarrow> string \<Rightarrow> (nat \<times> nat) option" where
  "digitpart_from (acc, n) [] = Some (acc, n)"
| "digitpart_from (acc, n) [c] =
     (case digit_val c of None \<Rightarrow> None | Some v \<Rightarrow> Some (10 * acc + v, Suc n))"
| "digitpart_from (acc, n) (c # d # ds) =
     (if c = CHR ''_'' then
        (case digit_val d of
           None \<Rightarrow> None
         | Some v \<Rightarrow> digitpart_from (10 * acc + v, Suc n) ds)
      else
        (case digit_val c of
           None \<Rightarrow> None
         | Some v \<Rightarrow> digitpart_from (10 * acc + v, Suc n) (d # ds)))"

definition digitpart :: "string \<Rightarrow> (nat \<times> nat) option" where
  "digitpart s =
     (case s of
        [] \<Rightarrow> None
      | c # cs \<Rightarrow> (case digit_val c of None \<Rightarrow> None | Some v \<Rightarrow> digitpart_from (v, 1) cs))"

definition split_sign :: "string \<Rightarrow> int \<times> string" where
  "split_sign s =
     (case s of
        [] \<Rightarrow> (1, [])
      | c # cs \<Rightarrow> if c = CHR ''-'' then (- 1, cs) else if c = CHR ''+'' then (1, cs) else (1, s))"

definition py_int :: "string \<Rightarrow> int option" where
  "py_int s =
     (case split_sign (strip s) of
        (sign, body) \<Rightarrow>
          (case digitpart body of None \<Rightarrow> None | Some (v, n) \<Rightarrow> Some (sign * int v)))"

datatype pyfloat = Finite int int | Infinite int | NaN

text \<open>A text against a word given in lower and in upper case, letter by letter.\<close>

fun matches :: "string \<Rightarrow> string \<Rightarrow> string \<Rightarrow> bool" where
  "matches [] [] [] = True"
| "matches (c # cs) (l # ls) (u # us) = ((c = l \<or> c = u) \<and> matches cs ls us)"
| "matches cs ls us = False"

text \<open>The text before the first character that satisfies \<open>p\<close>, and the text after it.\<close>

definition split_at :: "(char \<Rightarrow> bool) \<Rightarrow> string \<Rightarrow> string \<times> string option" where
  "split_at p s =
     (case dropWhile (\<lambda>c. \<not> p c) s of
        [] \<Rightarrow> (s, None)
      | c # rest \<Rightarrow> (takeWhile (\<lambda>c. \<not> p c) s, Some rest))"

text \<open>
  Digits, or digits around a point with digits on at least one side: the digits read as
  one number, and how many of them stand after the point.
\<close>

definition mantissa :: "string \<Rightarrow> (nat \<times> nat) option" where
  "mantissa s =
     (case split_at (\<lambda>c. c = CHR ''.'') s of
        (ip, None) \<Rightarrow> (case digitpart ip of None \<Rightarrow> None | Some (v, n) \<Rightarrow> Some (v, 0))
      | (ip, Some fp) \<Rightarrow>
          (if ip = [] \<and> fp = [] then None
           else
             (case (if ip = [] then Some (0, 0) else digitpart ip) of
                None \<Rightarrow> None
              | Some (iv, n) \<Rightarrow>
                  (case (if fp = [] then Some (0, 0) else digitpart fp) of
                     None \<Rightarrow> None
                   | Some (fv, k) \<Rightarrow> Some (iv * 10 ^ k + fv, k)))))"

definition exponent :: "string option \<Rightarrow> int option" where
  "exponent e =
     (case e of
        None \<Rightarrow> Some 0
      | Some t \<Rightarrow>
          (case split_sign t of
             (sign, body) \<Rightarrow>
               (case digitpart body of None \<Rightarrow> None | Some (v, n) \<Rightarrow> Some (sign * int v))))"

definition py_float :: "string \<Rightarrow> pyfloat option" where
  "py_float s =
     (case split_sign (strip s) of
        (sign, body) \<Rightarrow>
          if matches body ''inf'' ''INF'' \<or> matches body ''infinity'' ''INFINITY''
          then Some (Infinite sign)
          else if matches body ''nan'' ''NAN'' then Some NaN
          else
            (case split_at (\<lambda>c. c = CHR ''e'' \<or> c = CHR ''E'') body of
               (mant, ex) \<Rightarrow>
                 (case mantissa mant of
                    None \<Rightarrow> None
                  | Some (v, k) \<Rightarrow>
                      (case exponent ex of
                         None \<Rightarrow> None
                       | Some x \<Rightarrow> Some (Finite (sign * int v) (x - int k))))))"

text \<open>A map and a pinned panel on it, for the examples.\<close>

definition example_map :: lmap where
  "example_map =
     \<lparr>controls = [Control 0 ZoomControl, Control 7 WidgetControl], layers = [0],
      layer_objs = (\<lambda>r. \<lparr>name = ''OpenStreetMap'', url = ''https://tile.openstreetmap.org''\<rparr>),
      toolbar = [False, True], tool_control = Some (Control 7 WidgetControl),
      basemap_ctrl = None, slider_ctrl = None, bounds = None\<rparr>"

definition example_panel :: "lmap \<Rightarrow> tool_state" where
  "example_panel m =
     \<lparr>children = [Toolbar_header, Toolbar_footer], toolbar_button = True,
      close_button = True, closed = False, the_map = Some m\<rparr>"

section \<open>Properties of the playback loop\<close>

lemma advance_range: "1 \<le> v \<Longrightarrow> v \<le> int n \<Longrightarrow> 1 \<le> advance n v \<and> advance n v \<le> int n"
  by (simp add: advance_def)

lemma work_range: "1 \<le> v \<Longrightarrow> v \<le> int n \<Longrightarrow> 1 \<le> work n chks v \<and> work n chks v \<le> int n"
proof (induction chks arbitrary: v)
  case Nil
  then show ?case by simp
next
  case (Cons chk chks)
  then show ?case using advance_range [of v n] by simp
qed

text \<open>
  C4. With the index \<open>i\<close> in \<open>[1, N]\<close>, an advance at \<open>i = N\<close> sets the index to 1, an
  advance never gives \<open>N + 1\<close>, an advance below \<open>N\<close> adds one, and the index stays in
  \<open>[1, N]\<close> after each advance and after any number of passes of the loop.
\<close>

theorem advance_wraps:
  assumes "1 \<le> i" and "i \<le> int N"
  shows "advance N (int N) = 1
    \<and> advance N i \<noteq> int N + 1
    \<and> (i < int N \<longrightarrow> advance N i = i + 1)
    \<and> 1 \<le> advance N i \<and> advance N i \<le> int N
    \<and> 1 \<le> work N chks i \<and> work N chks i \<le> int N"
proof -
  have a: "advance N (int N) = 1" by (simp add: advance_def)
  have b: "advance N i \<noteq> int N + 1" using assms by (simp add: advance_def)
  have c: "i < int N \<longrightarrow> advance N i = i + 1" by (simp add: advance_def)
  have d: "1 \<le> advance N i \<and> advance N i \<le> int N" using assms by (rule advance_range)
  have e: "1 \<le> work N chks i \<and> work N chks i \<le> int N" using assms by (rule work_range)
  from a b c d e show ?thesis by blast
qed

theorem advance_wraps_witness:
  "(1::int) \<le> 3 \<and> (3::int) \<le> int 3 \<and> advance 3 3 = 1 \<and> advance 3 3 \<noteq> 4
   \<and> work 3 [True, True, False, True] 3 = 2"
  using advance_wraps [of 3 3 "[True, True, False, True]"]
  by (simp add: advance_def)


text \<open>
  C3, as stated, fails. \<open>play_click\<close> does not look at the run-flag: from the new panel
  a first play sets the flag and starts a task, and a second play, with the flag set and
  the first task in its loop, starts a second one. Both tasks go on advancing the slider.
\<close>

theorem double_play_counterexample:
  "play_chk (play_click new_playback)
   \<and> tasks (play_click new_playback) = 1
   \<and> tasks (play_click (play_click new_playback)) = 2
   \<and> play_run 3 [Play, Step, Play, Step, Step] new_playback
       = \<lparr>play_chk = True, slider_value = 1, tasks = 2\<rparr>"
  by (simp add: play_run_def play_click_def work_step_def new_playback_def advance_def)

lemma play_step_no_pause:
  "play_chk p \<Longrightarrow> ev \<noteq> Pause \<Longrightarrow>
   play_chk (play_step n ev p)
   \<and> tasks (play_step n ev p) = tasks p + (if ev = Play then 1 else 0)"
  by (cases ev) (simp_all add: play_click_def work_step_def)

text \<open>
  C3, amended. \<open>play_click\<close> sets the run-flag and starts a new task whatever the flag
  was. While the flag stays set (no pause among the events) no task ends, so the number
  of active tasks grows by one with every play.
\<close>

theorem play_click_unguarded:
  assumes "play_chk p" and "Pause \<notin> set evs"
  shows "tasks (play_click q) = Suc (tasks q) \<and> play_chk (play_click q)
    \<and> play_chk (play_run n evs p)
    \<and> tasks (play_run n evs p) = tasks p + count_list evs Play"
proof -
  have "play_chk (play_run n evs p) \<and> tasks (play_run n evs p) = tasks p + count_list evs Play"
    using assms
  proof (induction evs arbitrary: p)
    case Nil
    then show ?case by (simp add: play_run_def)
  next
    case (Cons ev evs)
    have ne: "ev \<noteq> Pause" and rest: "Pause \<notin> set evs" using Cons.prems(2) by auto
    note st = play_step_no_pause [OF Cons.prems(1) ne, of n]
    have "play_run n (ev # evs) p = play_run n evs (play_step n ev p)"
      by (simp add: play_run_def)
    then show ?case using Cons.IH [of "play_step n ev p"] st rest by auto
  qed
  then show ?thesis by (simp add: play_click_def)
qed

theorem play_click_unguarded_witness:
  "play_chk (play_click new_playback) \<and> Pause \<notin> set [Step, Play, Step]
   \<and> tasks (play_run 3 [Step, Play, Step] (play_click new_playback)) = 2"
  using play_click_unguarded [of "play_click new_playback" "[Step, Play, Step]" new_playback 3]
  by (simp add: play_click_def new_playback_def)

section \<open>Properties of the main toolbar\<close>

lemma reset_from_all_False:
  "\<forall>j<k. j < length fs \<longrightarrow> \<not> fs ! j \<Longrightarrow> reset_from k fs = replicate (length fs) False"
proof (induction k fs rule: reset_from.induct)
  case (1 k fs)
  show ?case
  proof (cases "k < length fs")
    case False
    then have "\<forall>j<length fs. \<not> fs ! j" using "1.prems" by auto
    then have "fs = replicate (length fs) False"
      by (simp add: list_eq_iff_nth_eq)
    then show ?thesis using False by (subst reset_from.simps) simp
  next
    case True
    show ?thesis
    proof (cases "fs ! k")
      case f: False
      have "\<forall>j<Suc k. j < length fs \<longrightarrow> \<not> fs ! j" using "1.prems" f by (auto simp: less_Suc_eq)
      then have "reset_from (Suc k) fs = replicate (length fs) False"
        using "1.IH"(3) True f by simp
      then show ?thesis using True f by (subst reset_from.simps) simp
    next
      case t: True
      have a: "reset_from 0 (fs[k := False]) = replicate (length fs) False"
        using "1.IH"(1) [OF True t] by simp
      have "reset_from (Suc k) (reset_from 0 (fs[k := False])) = replicate (length (reset_from 0 (fs[k := False]))) False"
        using "1.IH"(2) [OF True t] a by simp
      then show ?thesis using True t a by (subst reset_from.simps) simp
    qed
  qed
qed


lemma reset_from_loop:
  "reset_from k fs = (if k < length fs then reset_from (Suc k) (unset_tool k fs) else fs)"
  by (subst reset_from.simps) (simp add: unset_tool_def toolbar_reset_def)

lemma toolbar_reset_eq: "toolbar_reset fs = replicate (length fs) False"
  unfolding toolbar_reset_def by (rule reset_from_all_False) simp

lemma unset_tool_length: "length (unset_tool j fs) = length fs"
  by (simp add: unset_tool_def toolbar_reset_eq)

lemma unset_others_prefix:
  "k \<le> length fs \<Longrightarrow>
   length (fold (\<lambda>j s. if j \<noteq> i then unset_tool j s else s) [0..<k] fs) = length fs
   \<and> (\<forall>j<k. j \<noteq> i \<longrightarrow> \<not> fold (\<lambda>j s. if j \<noteq> i then unset_tool j s else s) [0..<k] fs ! j)"
proof (induction k)
  case 0
  then show ?case by simp
next
  case (Suc k)
  let ?s = "fold (\<lambda>j s. if j \<noteq> i then unset_tool j s else s) [0..<k] fs"
  have ih: "length ?s = length fs" "\<forall>j<k. j \<noteq> i \<longrightarrow> \<not> ?s ! j"
    using Suc by simp_all
  have step: "fold (\<lambda>j s. if j \<noteq> i then unset_tool j s else s) [0..<Suc k] fs
      = (if k \<noteq> i then unset_tool k ?s else ?s)"
    by simp
  show ?case
  proof (cases "k \<noteq> i \<and> ?s ! k")
    case True
    then have "fold (\<lambda>j s. if j \<noteq> i then unset_tool j s else s) [0..<Suc k] fs
        = replicate (length fs) False"
      using step ih(1) Suc.prems by (simp add: unset_tool_def toolbar_reset_eq)
    then show ?thesis using Suc.prems by simp
  next
    case False
    then have "fold (\<lambda>j s. if j \<noteq> i then unset_tool j s else s) [0..<Suc k] fs = ?s"
      using step by (auto simp: unset_tool_def)
    then show ?thesis using ih False by (auto simp: less_Suc_eq)
  qed
qed

lemma unset_others_spec:
  "length (unset_others i fs) = length fs \<and> (\<forall>j<length fs. j \<noteq> i \<longrightarrow> \<not> unset_others i fs ! j)"
  unfolding unset_others_def using unset_others_prefix [of "length fs" fs i] by simp

lemma count_true_le_one:
  "i < length fs \<Longrightarrow> \<forall>j<length fs. j \<noteq> i \<longrightarrow> \<not> fs ! j \<Longrightarrow> count_true fs \<le> 1"
proof -
  assume a: "i < length fs" "\<forall>j<length fs. j \<noteq> i \<longrightarrow> \<not> fs ! j"
  have "fs = (replicate (length fs) False)[i := fs ! i]"
    using a by (auto simp: list_eq_iff_nth_eq nth_list_update)
  moreover have "count_true ((replicate n False)[i := b]) \<le> 1" for n b
  proof (induction n arbitrary: i)
    case 0
    then show ?case by (simp add: count_true_def)
  next
    case (Suc n)
    then show ?case by (cases i) (auto simp: count_true_def)
  qed
  ultimately show ?thesis by metis
qed

text \<open>
  C7. The grid has one toggle per entry of \<open>tools\<close>. When the \<open>i\<close>-th toggle of the grid
  has become active and \<open>tool_callback\<close> runs for it, then in the state the callback
  leaves (whether the started tool returned or raised) the toggle of every other tool is
  false, so at most one toggle of the grid is true. The grid keeps its length.
\<close>

theorem tool_callback_exclusive:
  assumes "length fs = length tools" and "i < length fs" and "fs ! i"
  shows "length (state_of (tool_callback launch i True fs)) = length fs
    \<and> (\<forall>j<length fs. j \<noteq> i \<longrightarrow> \<not> state_of (tool_callback launch i True fs) ! j)
    \<and> count_true (state_of (tool_callback launch i True fs)) \<le> 1"
proof -
  let ?r = "state_of (tool_callback launch i True fs)"
  have r: "length ?r = length fs \<and> (\<forall>j<length fs. j \<noteq> i \<longrightarrow> \<not> ?r ! j)"
  proof (cases "launch (snd (tools ! i))")
    case None
    then show ?thesis
      by (simp add: tool_callback_def Let_def toolbar_reset_eq unset_tool_length unset_others_spec)
  next
    case (Some e)
    then show ?thesis
      using unset_others_spec [of i fs] by (simp add: tool_callback_def Let_def)
  qed
  then have "count_true ?r \<le> 1"
    using count_true_le_one [of i ?r] assms(2) by simp
  with r show ?thesis by simp
qed

theorem tool_callback_exclusive_witness:
  "length [True, False, False, True, False, False, False, False, False, False, False, False]
     = length tools
   \<and> (3::nat) < 12
   \<and> [True, False, False, True, False, False, False, False, False, False, False, False] ! 3
   \<and> tool_callback (\<lambda>n. None) 3 True
        [True, False, False, True, False, False, False, False, False, False, False, False]
      = Done [False, False, False, False, False, False, False, False, False, False, False, False]
   \<and> tool_callback (\<lambda>n. Some ExternalError) 3 True
        [False, False, False, True, False, False, False, False, False, False, False, False]
      = Raised ExternalError
          [False, False, False, True, False, False, False, False, False, False, False, False]"
proof -
  have l: "length [True, False, False, True, False, False, False, False, False, False, False, False]
     = length tools"
    by (simp add: tools_def)
  have a: "tool_callback (\<lambda>n. None) 3 True
        [True, False, False, True, False, False, False, False, False, False, False, False]
      = Done [False, False, False, False, False, False, False, False, False, False, False, False]"
    by (simp add: tool_callback_def Let_def toolbar_reset_eq unset_others_spec unset_tool_length
        tools_def)
  have b: "tool_callback (\<lambda>n. Some ExternalError) 3 True
        [False, False, False, True, False, False, False, False, False, False, False, False]
      = Raised ExternalError
          [False, False, False, True, False, False, False, False, False, False, False, False]"
    by (simp add: tool_callback_def unset_others_def unset_tool_def upt_rec)
  from tool_callback_exclusive [OF l, of 3 "\<lambda>n. None"] l a b
  show ?thesis by simp
qed

section \<open>Properties of the tool panel\<close>

lemma close_btn_click_False [simp]: "close_btn_click False s = Done s"
  by (subst close_btn_click.simps) simp

lemma toolbar_btn_click_False [simp]:
  "toolbar_btn_click False s =
     (if \<not> close_button s then Done (s\<lparr>children := [Toolbar_button]\<rparr>) else Done s)"
  by (subst toolbar_btn_click.simps) simp

lemma toolbar_btn_click_True [simp]:
  "toolbar_btn_click True s =
     Done (s\<lparr>close_button := False, children := [Toolbar_header, Toolbar_footer]\<rparr>)"
  by (subst toolbar_btn_click.simps) (cases "close_button s"; simp)

lemma handle_unpinned:
  assumes "\<not> toolbar_button s" and "t = ''mouseenter'' \<or> t = ''mouseleave''"
  shows "handle_toolbar_event t s =
     Done (if t = ''mouseenter'' then s\<lparr>children := [Toolbar_header, Toolbar_footer]\<rparr>
           else s\<lparr>children := [Toolbar_button], close_button := False\<rparr>)"
proof (cases "t = ''mouseenter''")
  case True
  then show ?thesis by (simp add: handle_toolbar_event_def)
next
  case False
  then have t: "t = ''mouseleave''" using assms(2) by simp
  show ?thesis
  proof (cases "close_button s")
    case True
    then show ?thesis using assms(1) t by (simp add: handle_toolbar_event_def)
  next
    case False
    then have "s\<lparr>children := [Toolbar_button], close_button := False\<rparr> = s\<lparr>children := [Toolbar_button]\<rparr>"
      by simp
    then show ?thesis using assms(1) t False by (simp add: handle_toolbar_event_def)
  qed
qed

lemma hover_run:
  assumes "\<not> toolbar_button s" and "set ts \<subseteq> {''mouseenter'', ''mouseleave''}"
  shows "completed (panel_run (map Dom_event ts) s)
    \<and> \<not> toolbar_button (state_of (panel_run (map Dom_event ts) s))
    \<and> (ts = [] \<longrightarrow> state_of (panel_run (map Dom_event ts) s) = s)
    \<and> (ts \<noteq> [] \<longrightarrow>
          children (state_of (panel_run (map Dom_event ts) s)) =
            (if last ts = ''mouseenter'' then [Toolbar_header, Toolbar_footer] else [Toolbar_button]))"
  using assms
proof (induction ts arbitrary: s)
  case Nil
  then show ?case by simp
next
  case (Cons t ts)
  let ?s1 = "if t = ''mouseenter'' then s\<lparr>children := [Toolbar_header, Toolbar_footer]\<rparr>
           else s\<lparr>children := [Toolbar_button], close_button := False\<rparr>"
  have t: "t = ''mouseenter'' \<or> t = ''mouseleave''" using Cons.prems(2) by simp
  have step: "handle_toolbar_event t s = Done ?s1"
    using Cons.prems(1) t by (rule handle_unpinned)
  have run: "panel_run (map Dom_event (t # ts)) s = panel_run (map Dom_event ts) ?s1"
    using step by simp
  have u1: "\<not> toolbar_button ?s1" using Cons.prems(1) by simp
  have sub: "set ts \<subseteq> {''mouseenter'', ''mouseleave''}" using Cons.prems(2) by simp
  note ih = Cons.IH [OF u1 sub]
  show ?case
  proof (cases "ts = []")
    case True
    then show ?thesis using run u1 by simp
  next
    case False
    then show ?thesis using run ih by simp
  qed
qed

text \<open>
  C1. A panel whose pin (\<open>toolbar_button\<close>) is off receives a finite sequence of
  \<open>mouseenter\<close> and \<open>mouseleave\<close> events: every event is handled without error, the pin
  stays off, and after a non-empty sequence the panel is expanded exactly when the last
  event was \<open>mouseenter\<close> and collapsed exactly when it was \<open>mouseleave\<close>. The empty
  sequence leaves the state as it was, and the panel as first built is collapsed with
  the pin off.
\<close>

theorem hover_last_event:
  assumes "\<not> toolbar_button s" and "set ts \<subseteq> {''mouseenter'', ''mouseleave''}"
  shows "completed (panel_run (map Dom_event ts) s)
    \<and> \<not> toolbar_button (state_of (panel_run (map Dom_event ts) s))
    \<and> (if ts = [] then state_of (panel_run (map Dom_event ts) s) = s
        else (is_expanded (state_of (panel_run (map Dom_event ts) s)) = (last ts = ''mouseenter''))
           \<and> (is_collapsed (state_of (panel_run (map Dom_event ts) s)) = (last ts \<noteq> ''mouseenter'')))
    \<and> is_collapsed (new_tool_state m) \<and> \<not> toolbar_button (new_tool_state m)"
proof -
  note h = hover_run [OF assms]
  have "is_collapsed (new_tool_state m) \<and> \<not> toolbar_button (new_tool_state m)"
    by (simp add: is_collapsed_def new_tool_state_def)
  then show ?thesis using h by (auto simp: is_expanded_def is_collapsed_def)
qed

theorem hover_last_event_witness:
  "\<not> toolbar_button (new_tool_state None)
   \<and> is_expanded (state_of (panel_run (map Dom_event [''mouseenter'', ''mouseleave'', ''mouseenter'']) (new_tool_state None)))
   \<and> is_collapsed (state_of (panel_run (map Dom_event [''mouseenter'', ''mouseleave'']) (new_tool_state None)))"
  using hover_last_event [where s = "new_tool_state None"
        and ts = "[''mouseenter'', ''mouseleave'', ''mouseenter'']" and m = None]
    hover_last_event [where s = "new_tool_state None"
        and ts = "[''mouseenter'', ''mouseleave'']" and m = None]
  by (simp add: new_tool_state_def)

text \<open>
  C2, as stated, fails. The panel that \<open>tool_template\<close> returns is pinned and expanded;
  the pointer enters it, and with the pointer over the panel the pin is toggled off: the
  panel collapses to its icon.
\<close>

theorem unpin_under_pointer_counterexample:
  "pointer_over [Dom_event ''mouseenter'']
   \<and> tool_template (Control 0 WidgetControl) None =
       Done \<lparr>children = [Toolbar_header, Toolbar_footer], toolbar_button = True,
             close_button = False, closed = False, the_map = None\<rparr>
   \<and> panel_run [Dom_event ''mouseenter'', Toggle_toolbar_button]
        \<lparr>children = [Toolbar_header, Toolbar_footer], toolbar_button = True,
         close_button = False, closed = False, the_map = None\<rparr> =
       Done \<lparr>children = [Toolbar_button], toolbar_button = False,
             close_button = False, closed = False, the_map = None\<rparr>"
  by (simp add: pointer_over_def tool_template_def new_tool_state_def handle_toolbar_event_def)

lemma panel_run_append:
  "panel_run (xs @ ys) s =
     (case panel_run xs s of Raised e s' \<Rightarrow> Raised e s' | Done s' \<Rightarrow> panel_run ys s')"
  by (induction xs arbitrary: s) (auto split: outcome.splits)

text \<open>
  C2, amended. After any history of events that leaves the panel pinned, toggling the
  pin off sets \<open>toolbar_button\<close> to false and, unless the close button is set,
  collapses the panel to its icon, whether the history left the pointer over the panel
  or not (the state has no trace of the pointer); with the close button set the children
  stay as they are.
\<close>

theorem unpin_collapses:
  assumes "panel_run evs s0 = Done s" and "toolbar_button s"
  shows "panel_run (evs @ [Toggle_toolbar_button]) s0 =
           Done (if close_button s then s\<lparr>toolbar_button := False\<rparr>
                 else s\<lparr>toolbar_button := False, children := [Toolbar_button]\<rparr>)"
  using assms by (simp add: panel_run_append)

theorem unpin_collapses_witness:
  "pointer_over [Dom_event ''mouseenter'']
   \<and> panel_run [Dom_event ''mouseenter''] (state_of (tool_template (Control 0 WidgetControl) None))
     = Done \<lparr>children = [Toolbar_header, Toolbar_footer], toolbar_button = True,
             close_button = False, closed = False, the_map = None\<rparr>
   \<and> panel_run ([Dom_event ''mouseenter''] @ [Toggle_toolbar_button])
        (state_of (tool_template (Control 0 WidgetControl) None))
     = Done \<lparr>children = [Toolbar_button], toolbar_button = False,
             close_button = False, closed = False, the_map = None\<rparr>"
proof -
  have p: "pointer_over [Dom_event ''mouseenter'']" by (simp add: pointer_over_def)
  have r: "panel_run [Dom_event ''mouseenter''] (state_of (tool_template (Control 0 WidgetControl) None))
     = Done \<lparr>children = [Toolbar_header, Toolbar_footer], toolbar_button = True,
             close_button = False, closed = False, the_map = None\<rparr>"
    by (simp add: tool_template_def new_tool_state_def handle_toolbar_event_def)
  from unpin_collapses [OF r] p r show ?thesis by simp
qed

lemma detach_tool_control_done:
  "detach_tool_control m =
     Done (case tool_control m of
             None \<Rightarrow> m
           | Some c \<Rightarrow> if c \<in> set (controls m)
                        then m\<lparr>controls := filter (\<lambda>x. x \<noteq> c) (controls m), tool_control := None\<rparr>
                        else m)"
  by (simp add: detach_tool_control_def remove_control_def split: option.splits)

lemma close_btn_click_True:
  "close_btn_click True s =
     (let s' = (if toolbar_button s \<and> \<not> close_button s
                then s\<lparr>toolbar_button := False, children := [Toolbar_button]\<rparr>
                else s\<lparr>toolbar_button := False\<rparr>)
      in case the_map s' of
           None \<Rightarrow> Done (s'\<lparr>closed := True\<rparr>)
         | Some m \<Rightarrow>
             Done (s'\<lparr>the_map := Some (state_of (detach_tool_control (map_toolbar_reset m))),
                      closed := True\<rparr>))"
  by (subst close_btn_click.simps)
     (auto simp: Let_def detach_tool_control_done split: option.splits)

lemma close_completed: "completed (close_btn_click new s)"
  by (cases new) (auto simp: close_btn_click_True Let_def split: option.splits)

lemma close_controls:
  "map_controls (state_of (close_btn_click True s)) =
     (if detached s then map_controls s
      else filter (\<lambda>x. Some x \<noteq> panel_control s) (map_controls s))"
  by (auto simp: close_btn_click_True Let_def detach_tool_control_done map_toolbar_reset_def
      map_controls_def detached_def panel_control_def split: option.splits
      intro!: filter_cong)

lemma close_detached: "detached (state_of (close_btn_click True s))"
  by (auto simp: close_btn_click_True Let_def detach_tool_control_done map_toolbar_reset_def
      detached_def split: option.splits)

lemma close_closed: "closed (state_of (close_btn_click True s))"
  by (auto simp: close_btn_click_True Let_def split: option.splits)

text \<open>
  C5. Closing a panel that is already detached from the controls of its map completes
  without error, leaves the controls of the map as they were and the panel detached.
  From any state \<open>t\<close>, a first close completes and leaves the panel detached, and a second
  close right after it completes, changes no control and does not bring the panel's
  control back: \<open>remove_control\<close> is called only while the control is among the map's
  controls.
\<close>

theorem close_when_detached:
  assumes "detached s"
  shows "completed (close_btn_click True s)
    \<and> closed (state_of (close_btn_click True s))
    \<and> map_controls (state_of (close_btn_click True s)) = map_controls s
    \<and> detached (state_of (close_btn_click True s))
    \<and> completed (close_btn_click True t)
    \<and> detached (state_of (close_btn_click True t))
    \<and> completed (close_btn_click True (state_of (close_btn_click True t)))
    \<and> map_controls (state_of (close_btn_click True (state_of (close_btn_click True t))))
        = map_controls (state_of (close_btn_click True t))
    \<and> (\<forall>c. panel_control t = Some c \<longrightarrow>
          c \<notin> set (map_controls (state_of (close_btn_click True (state_of (close_btn_click True t))))))"
proof -
  let ?t1 = "state_of (close_btn_click True t)"
  have d1: "detached ?t1" by (rule close_detached)
  have c2: "map_controls (state_of (close_btn_click True ?t1)) = map_controls ?t1"
    using d1 by (simp add: close_controls)
  have gone: "\<forall>c. panel_control t = Some c \<longrightarrow> c \<notin> set (map_controls ?t1)"
    unfolding close_controls
    by (auto simp: detached_def panel_control_def map_controls_def split: option.splits)
  show ?thesis
    using assms d1 c2 gone
    by (simp add: close_completed close_closed close_detached close_controls)
qed

theorem close_when_detached_witness:
  "detached (example_panel (example_map\<lparr>controls := [Control 0 ZoomControl]\<rparr>))
   \<and> close_btn_click True (example_panel (example_map\<lparr>controls := [Control 0 ZoomControl]\<rparr>))
     = Done \<lparr>children = [Toolbar_header, Toolbar_footer], toolbar_button = False,
             close_button = True, closed = True,
             the_map = Some (example_map\<lparr>controls := [Control 0 ZoomControl],
                                         toolbar := [False, False]\<rparr>)\<rparr>
   \<and> map_controls (state_of (close_btn_click True (example_panel example_map)))
     = [Control 0 ZoomControl]
   \<and> map_controls (state_of (close_btn_click True
         (state_of (close_btn_click True (example_panel example_map)))))
     = [Control 0 ZoomControl]"
proof -
  have h: "detached (example_panel (example_map\<lparr>controls := [Control 0 ZoomControl]\<rparr>))"
    by (simp add: detached_def example_panel_def example_map_def)
  have c: "map_controls (state_of (close_btn_click True (example_panel example_map)))
      = [Control 0 ZoomControl]"
    by (subst close_controls)
       (simp add: detached_def map_controls_def panel_control_def
          example_panel_def example_map_def)
  have d: "close_btn_click True (example_panel (example_map\<lparr>controls := [Control 0 ZoomControl]\<rparr>))
     = Done \<lparr>children = [Toolbar_header, Toolbar_footer], toolbar_button = False,
             close_button = True, closed = True,
             the_map = Some (example_map\<lparr>controls := [Control 0 ZoomControl],
                                         toolbar := [False, False]\<rparr>)\<rparr>"
    by (simp add: close_btn_click_True detach_tool_control_done map_toolbar_reset_def
        toolbar_reset_eq example_panel_def example_map_def)
  from close_when_detached [OF h, of "example_panel example_map"] h c d
  show ?thesis by simp
qed

section \<open>Properties of the basemap switcher\<close>

lemma change_basemap_layers:
  assumes "map_of bm ''OpenStreetMap'' = Some osm"
  shows "layers (state_of (change_basemap bm c m)) =
     (if length (layers m) = 1 then [layers m ! 0, osm]
      else if length (layers m) > 1 \<and> name (layer_objs m (layers m ! 1)) \<noteq> ''OpenStreetMap''
      then layers m ! 0 # osm # drop 1 (layers m)
      else layers m)"
  using assms
  by (auto simp: change_basemap_def Let_def add_control_def split: sum.splits)

lemma on_click_layers:
  assumes "2 \<le> length (layers m)" and "map_of bm nm = Some new"
  shows "completed (on_click bm xyz nm m)
    \<and> layers (state_of (on_click bm xyz nm m))
        = map (\<lambda>l. if l = layers m ! 1 then new else l) (layers m)"
proof -
  have "layers m ! 1 \<in> set (layers m)" using assms(1) by simp
  then show ?thesis using assms
    by (auto simp: on_click_def Let_def substitute_layer_def zoom_to_bounds_def
        split: option.splits)
qed

lemma map_subst_distinct:
  "distinct xs \<Longrightarrow> i < length xs \<Longrightarrow> map (\<lambda>l. if l = xs ! i then new else l) xs = xs[i := new]"
  by (auto simp: list_eq_iff_nth_eq nth_list_update nth_eq_iff_index_eq)

text \<open>
  C10. For a map with at least one layer, and with \<open>"OpenStreetMap"\<close> among the
  basemaps: after \<open>change_basemap\<close> the layer at index 0 is the one that was there, the
  map has at least two layers, the OpenStreetMap basemap has been appended to a single
  layer and spliced in at index 1 before the remaining layers when the layer at index 1
  was not named \<open>"OpenStreetMap"\<close>, and the list is unchanged when it was; so the layer at
  index 1 is named \<open>"OpenStreetMap"\<close> or is the basemap of that name. The handler of the
  dropdown then completes, and puts the chosen basemap at index 1, in place of the layer
  that was there.
\<close>

theorem change_basemap_normalizes:
  assumes "layers m \<noteq> []" and "map_of bm ''OpenStreetMap'' = Some osm"
    and "map_of bm nm = Some new"
  shows "layers (state_of (change_basemap bm c m)) ! 0 = layers m ! 0
    \<and> 2 \<le> length (layers (state_of (change_basemap bm c m)))
    \<and> (length (layers m) = 1 \<longrightarrow> layers (state_of (change_basemap bm c m)) = [layers m ! 0, osm])
    \<and> (1 < length (layers m) \<and> name (layer_objs m (layers m ! 1)) \<noteq> ''OpenStreetMap'' \<longrightarrow>
          layers (state_of (change_basemap bm c m)) = layers m ! 0 # osm # tl (layers m))
    \<and> (1 < length (layers m) \<and> name (layer_objs m (layers m ! 1)) = ''OpenStreetMap'' \<longrightarrow>
          layers (state_of (change_basemap bm c m)) = layers m)
    \<and> (name (layer_objs m (layers (state_of (change_basemap bm c m)) ! 1)) = ''OpenStreetMap''
         \<or> layers (state_of (change_basemap bm c m)) ! 1 = osm)
    \<and> completed (on_click bm xyz nm (state_of (change_basemap bm c m)))
    \<and> layers (state_of (on_click bm xyz nm (state_of (change_basemap bm c m)))) ! 1 = new
    \<and> length (layers (state_of (on_click bm xyz nm (state_of (change_basemap bm c m)))))
        = length (layers (state_of (change_basemap bm c m)))
    \<and> (distinct (layers (state_of (change_basemap bm c m))) \<longrightarrow>
         layers (state_of (on_click bm xyz nm (state_of (change_basemap bm c m))))
           = (layers (state_of (change_basemap bm c m)))[1 := new])"
proof -
  let ?m' = "state_of (change_basemap bm c m)"
  note ls = change_basemap_layers [OF assms(2), of c m]
  have len: "2 \<le> length (layers ?m')"
    using assms(1) ls by (cases "layers m") (auto split: if_splits simp: Suc_le_eq)
  have z: "layers ?m' ! 0 = layers m ! 0"
    using ls by (auto split: if_splits)
  note oc = on_click_layers [OF len assms(3), of xyz]
  have one: "layers (state_of (on_click bm xyz nm ?m')) ! 1 = new"
    using oc len by simp
  have zero: "length (layers (state_of (on_click bm xyz nm ?m'))) = length (layers ?m')"
    using oc by simp
  have d: "distinct (layers ?m') \<longrightarrow>
         layers (state_of (on_click bm xyz nm ?m')) = (layers ?m')[1 := new]"
    using oc len map_subst_distinct [of "layers ?m'" 1 new] by simp
  have cases: "(length (layers m) = 1 \<longrightarrow> layers ?m' = [layers m ! 0, osm])
    \<and> (1 < length (layers m) \<and> name (layer_objs m (layers m ! 1)) \<noteq> ''OpenStreetMap'' \<longrightarrow>
          layers ?m' = layers m ! 0 # osm # tl (layers m))
    \<and> (1 < length (layers m) \<and> name (layer_objs m (layers m ! 1)) = ''OpenStreetMap'' \<longrightarrow>
          layers ?m' = layers m)"
    using ls by (auto simp: drop_Suc)
  have osm1: "name (layer_objs m (layers ?m' ! 1)) = ''OpenStreetMap'' \<or> layers ?m' ! 1 = osm"
    using ls assms(1) by (cases "layers m") (auto split: if_splits)
  show ?thesis using len z oc one zero d cases osm1 by blast
qed

theorem change_basemap_normalizes_witness:
  "layers example_map \<noteq> []
   \<and> map_of [(''OpenStreetMap'', 1), (''HYBRID'', 2)] ''OpenStreetMap'' = Some (1::nat)
   \<and> map_of [(''OpenStreetMap'', 1), (''HYBRID'', 2)] ''HYBRID'' = Some (2::nat)
   \<and> layers (state_of (change_basemap [(''OpenStreetMap'', 1), (''HYBRID'', 2)]
         (Control 8 WidgetControl) example_map)) = [0, 1]
   \<and> layers (state_of (on_click [(''OpenStreetMap'', 1), (''HYBRID'', 2)] [] ''HYBRID''
         (state_of (change_basemap [(''OpenStreetMap'', 1), (''HYBRID'', 2)]
            (Control 8 WidgetControl) example_map)))) = [0, 2]"
proof -
  have a: "layers example_map \<noteq> []" by (simp add: example_map_def)
  have b: "map_of [(''OpenStreetMap'', 1), (''HYBRID'', 2)] ''OpenStreetMap'' = Some (1::nat)"
    by simp
  have c: "map_of [(''OpenStreetMap'', 1), (''HYBRID'', 2)] ''HYBRID'' = Some (2::nat)"
    by simp
  have l: "length (layers example_map) = 1" by (simp add: example_map_def)
  have z: "layers example_map ! 0 = 0" by (simp add: example_map_def)
  have d: "distinct [0, 1::nat]" by simp
  note th = change_basemap_normalizes [OF a b c, of "Control 8 WidgetControl" "[]"]
  from th l z have e: "layers (state_of (change_basemap [(''OpenStreetMap'', 1), (''HYBRID'', 2)]
         (Control 8 WidgetControl) example_map)) = [0, 1]" by simp
  from th e d have "layers (state_of (on_click [(''OpenStreetMap'', 1), (''HYBRID'', 2)] [] ''HYBRID''
         (state_of (change_basemap [(''OpenStreetMap'', 1), (''HYBRID'', 2)]
            (Control 8 WidgetControl) example_map)))) = [0, 2]" by simp
  with a b c e show ?thesis by simp
qed

text \<open>With no layer at all the list stays empty, and the handler of the dropdown raises.\<close>

lemma change_basemap_empty:
  "layers m = [] \<Longrightarrow>
   layers (state_of (change_basemap bm c m)) = []
   \<and> on_click bm xyz nm (state_of (change_basemap bm c m))
       = Raised IndexError (state_of (change_basemap bm c m))"
  by (auto simp: change_basemap_def on_click_def Let_def add_control_def)

section \<open>Properties of the split-panel map\<close>

lemma split_basemaps_saved:
  "saved_controls (state_of (split_basemaps bm wms i ld ln rn m)) = controls m
   \<and> saved_layers (state_of (split_basemaps bm wms i ld ln rn m)) = layers m"
proof -
  have e: "saved_controls (split_entry bm wms ld m) = controls m"
      "saved_layers (split_entry bm wms ld m) = layers m"
    by (simp_all add: split_entry_def)
  show ?thesis
    unfolding split_basemaps_def Let_def
    by (simp add: e split: option.split outcome.split del: add_controls.simps)
qed

lemma split_step_saved:
  "saved_controls (state_of (split_step ev s)) = saved_controls s
   \<and> saved_layers (state_of (split_step ev s)) = saved_layers s"
proof (cases ev)
  case (Left_dropdown v)
  then show ?thesis
    by (auto simp: left_change_def split: option.splits control.splits control_kind.splits)
next
  case (Right_dropdown v)
  then show ?thesis
    by (auto simp: right_change_def split: option.splits control.splits control_kind.splits)
next
  case (Map_add_control c)
  then show ?thesis by (cases "add_control c (split_map s)") simp_all
next
  case (Map_remove_control c)
  then show ?thesis by (cases "remove_control c (split_map s)") simp_all
next
  case (Map_add_layer l)
  then show ?thesis by (cases "add_layer l (split_map s)") simp_all
next
  case (Map_set_layers ls)
  then show ?thesis by simp
qed

lemma split_run_saved:
  "saved_controls (split_run evs s) = saved_controls s
   \<and> saved_layers (split_run evs s) = saved_layers s"
proof (induction evs arbitrary: s)
  case Nil
  then show ?case by (simp add: split_run_def)
next
  case (Cons ev evs)
  have "split_run (ev # evs) s = split_run evs (state_of (split_step ev s))"
    by (simp add: split_run_def)
  then show ?case using Cons.IH [of "state_of (split_step ev s)"] split_step_saved [of ev s]
    by simp
qed

lemma add_controls_fresh:
  "set (controls m) \<inter> set cs = {} \<Longrightarrow> distinct cs \<Longrightarrow>
   add_controls cs m = Done (m\<lparr>controls := controls m @ cs\<rparr>)"
proof (induction cs arbitrary: m)
  case Nil
  then show ?case by simp
next
  case (Cons c cs)
  have "add_control c m = Done (m\<lparr>controls := controls m @ [c]\<rparr>)"
    using Cons.prems(1) by (simp add: add_control_def)
  moreover have "add_controls cs (m\<lparr>controls := controls m @ [c]\<rparr>)
      = Done (m\<lparr>controls := (controls m @ [c]) @ cs\<rparr>)"
    using Cons.IH [of "m\<lparr>controls := controls m @ [c]\<rparr>"] Cons.prems by auto
  ultimately show ?case by simp
qed

lemma split_basemaps_controls:
  assumes "split_basemaps bm wms i ld ln rn m = Done s"
  shows "length (controls (split_map s)) = 7 \<and> layers (split_map s) = layers m"
proof -
  have e: "controls (split_map (split_entry bm wms ld m)) = []"
      "layers (split_map (split_entry bm wms ld m)) = layers m"
    by (simp_all add: split_entry_def clear_controls_def)
  have a: "add_controls
             [Control i (SplitMapControl l r), Control (i + 1) WidgetControl,
              Control (i + 2) WidgetControl, Control (i + 3) WidgetControl,
              Control (i + 4) ZoomControl, Control (i + 5) FullScreenControl,
              Control (i + 6) ScaleControl] (split_map (split_entry bm wms ld m))
         = Done ((split_map (split_entry bm wms ld m))\<lparr>controls :=
             [Control i (SplitMapControl l r), Control (i + 1) WidgetControl,
              Control (i + 2) WidgetControl, Control (i + 3) WidgetControl,
              Control (i + 4) ZoomControl, Control (i + 5) FullScreenControl,
              Control (i + 6) ScaleControl]\<rparr>)" for l r
    by (subst add_controls_fresh) (simp_all add: e)
  show ?thesis
    using assms unfolding split_basemaps_def Let_def a
    by (auto simp: e split: option.splits if_splits)
qed

text \<open>
  C8. When \<open>split_basemaps\<close> has completed on a map \<open>m\<close>, it has recorded the controls
  and layers of \<open>m\<close> and put its own seven controls on the map; whatever happens while
  the split map is open (choices in the dropdowns, controls and layers added or removed),
  the close button then sets the controls and the layers of the map back to exactly the
  recorded sequences.
\<close>

theorem split_close_restores:
  assumes "split_basemaps leafmap_basemaps is_wms new_id layers_dict_arg left_name right_name m = Done s"
  shows "controls (split_map (split_close_btn_click True (split_run evs s))) = controls m
    \<and> layers (split_map (split_close_btn_click True (split_run evs s))) = layers m
    \<and> saved_controls s = controls m \<and> saved_layers s = layers m
    \<and> length (controls (split_map s)) = 7"
proof -
  have sv: "saved_controls s = controls m \<and> saved_layers s = layers m"
    using split_basemaps_saved [of leafmap_basemaps is_wms new_id layers_dict_arg left_name right_name m]
      assms by simp
  have run: "saved_controls (split_run evs s) = controls m
      \<and> saved_layers (split_run evs s) = layers m"
    using split_run_saved [of evs s] sv by simp
  have seven: "length (controls (split_map s)) = 7"
    using split_basemaps_controls [OF assms] by simp
  show ?thesis using sv run seven
    by (simp add: split_close_btn_click_def clear_layers_def)
qed

lemma split_example:
  "split_basemaps [(''OpenStreetMap'', 1), (''HYBRID'', 2)] (\<lambda>l. False) 20 None None None example_map
     = Done \<lparr>split_map = example_map\<lparr>controls :=
                [Control 20 (SplitMapControl 1 2), Control 21 WidgetControl,
                 Control 22 WidgetControl, Control 23 WidgetControl,
                 Control 24 ZoomControl, Control 25 FullScreenControl,
                 Control 26 ScaleControl]\<rparr>,
             saved_controls = [Control 0 ZoomControl, Control 7 WidgetControl],
             saved_layers = [0],
             layers_dict = [(''OpenStreetMap'', 1), (''HYBRID'', 2)],
             split_control = Some (Control 20 (SplitMapControl 1 2))\<rparr>"
  by (simp add: split_basemaps_def split_entry_def Let_def add_control_def clear_controls_def
      example_map_def)

theorem split_close_restores_witness:
  "completed (split_basemaps [(''OpenStreetMap'', 1), (''HYBRID'', 2)] (\<lambda>l. False) 20
       None None None example_map)
   \<and> controls (split_map (split_close_btn_click True
        (split_run [Left_dropdown ''HYBRID'', Map_add_layer 2, Map_add_control (Control 30 ScaleControl)]
          (state_of (split_basemaps [(''OpenStreetMap'', 1), (''HYBRID'', 2)] (\<lambda>l. False) 20
             None None None example_map)))))
      = [Control 0 ZoomControl, Control 7 WidgetControl]
   \<and> layers (split_map (split_close_btn_click True
        (split_run [Left_dropdown ''HYBRID'', Map_add_layer 2, Map_add_control (Control 30 ScaleControl)]
          (state_of (split_basemaps [(''OpenStreetMap'', 1), (''HYBRID'', 2)] (\<lambda>l. False) 20
             None None None example_map)))))
      = [0]
   \<and> layers (split_map
        (split_run [Left_dropdown ''HYBRID'', Map_add_layer 2, Map_add_control (Control 30 ScaleControl)]
          (state_of (split_basemaps [(''OpenStreetMap'', 1), (''HYBRID'', 2)] (\<lambda>l. False) 20
             None None None example_map))))
      = [0, 2]"
proof -
  note ex = split_example
  have c: "controls example_map = [Control 0 ZoomControl, Control 7 WidgetControl]"
    and l: "layers example_map = [0]"
    by (simp_all add: example_map_def)
  have r: "layers (split_map
        (split_run [Left_dropdown ''HYBRID'', Map_add_layer 2, Map_add_control (Control 30 ScaleControl)]
          (state_of (split_basemaps [(''OpenStreetMap'', 1), (''HYBRID'', 2)] (\<lambda>l. False) 20
             None None None example_map)))) = [0, 2]"
    unfolding ex
    by (simp add: split_run_def left_change_def set_url_def add_layer_def add_control_def
        example_map_def)
  from split_close_restores [OF ex,
      of "[Left_dropdown ''HYBRID'', Map_add_layer 2, Map_add_control (Control 30 ScaleControl)]"]
    c l r
  show ?thesis unfolding ex by simp
qed

section \<open>Properties of the time slider's argument checks\<close>

text \<open>
  C9, as stated, fails. With an empty \<open>layers_dict\<close> and a list of one label, the lengths
  differ (one label, no layer); the empty dictionary is replaced by the planet tiles,
  here a dictionary of one layer, the lengths then agree, no error is raised, and the map
  gets a layer and a control.
\<close>

theorem time_slider_empty_dict_counterexample:
  "length [''January''] \<noteq> length ([] :: (string \<times> ref) list)
   \<and> time_slider (Inr [(''2021_01'', 5)]) (Control 9 WidgetControl) example_map
         (Dict []) (Some [''January''])
       = Done (example_map\<lparr>controls := [Control 0 ZoomControl, Control 7 WidgetControl,
                                            Control 9 WidgetControl],
                             layers := [0, 5],
                             slider_ctrl := Some (Control 9 WidgetControl)\<rparr>)"
  by (simp add: time_slider_def effective_layers_dict_def add_layer_def add_control_def
      example_map_def)

text \<open>
  C9, amended. A \<open>layers_dict\<close> that is not a dictionary raises \<open>TypeError\<close>. Explicit
  labels whose number differs from the length of the dictionary in use (the one given,
  or the planet tiles in place of an empty one) raise \<open>ValueError\<close>; that is so in
  particular for every non-empty \<open>layers_dict\<close> of another length. When the planet tiles
  are asked for and raise, that exception leaves \<open>time_slider\<close>. In each of these cases
  the map is as it was: no layer and no control has been added.
\<close>

theorem time_slider_rejects:
  "time_slider planet c m Not_a_dict labels = Raised TypeError m
   \<and> (effective_layers_dict planet given = Inr dict \<and> length ls \<noteq> length dict \<longrightarrow>
         time_slider planet c m (Dict given) (Some ls) = Raised ValueError m)
   \<and> (given \<noteq> [] \<and> length ls \<noteq> length given \<longrightarrow>
         time_slider planet c m (Dict given) (Some ls) = Raised ValueError m)
   \<and> (effective_layers_dict planet given = Inl e \<longrightarrow>
         time_slider planet c m (Dict given) labels = Raised e m)"
  by (simp add: time_slider_def effective_layers_dict_def)

theorem time_slider_rejects_witness:
  "effective_layers_dict (Inr [(''2021_01'', 5)]) [] = Inr [(''2021_01'', 5)]
   \<and> length [''January'', ''February''] \<noteq> length [(''2021_01'', 5::nat)]
   \<and> time_slider (Inr [(''2021_01'', 5)]) (Control 9 WidgetControl) example_map
         (Dict []) (Some [''January'', ''February''])
       = Raised ValueError example_map
   \<and> time_slider (Inr [(''2021_01'', 5)]) (Control 9 WidgetControl) example_map
         (Dict [(''a'', 3), (''b'', 4)]) (Some [''January''])
       = Raised ValueError example_map
   \<and> time_slider (Inl ExternalError) (Control 9 WidgetControl) example_map
         (Dict []) (Some [''January''])
       = Raised ExternalError example_map"
proof -
  have a: "effective_layers_dict (Inr [(''2021_01'', 5)]) [] = Inr [(''2021_01'', 5)]"
    by (simp add: effective_layers_dict_def)
  have b: "effective_layers_dict (Inl ExternalError) [] = Inl ExternalError"
    by (simp add: effective_layers_dict_def)
  from time_slider_rejects [where planet = "Inr [(''2021_01'', 5)]" and given = "[]"
      and dict = "[(''2021_01'', 5)]" and ls = "[''January'', ''February'']"
      and c = "Control 9 WidgetControl" and m = example_map]
    time_slider_rejects [where planet = "Inr [(''2021_01'', 5)]" and given = "[(''a'', 3), (''b'', 4)]"
      and ls = "[''January'']" and c = "Control 9 WidgetControl" and m = example_map]
    time_slider_rejects [where planet = "Inl ExternalError" and given = "[]" and e = ExternalError
      and labels = "Some [''January'']" and c = "Control 9 WidgetControl" and m = example_map]
    a b
  show ?thesis by simp
qed

section \<open>Properties of the numeric text fields\<close>

lemmas parse_defs = py_int_def py_float_def strip_def is_space_def split_sign_def
  digitpart_def digit_val_def split_at_def mantissa_def exponent_def

text \<open>
  C6, as stated, fails. The band field holds \<open>1,2\<close>, which \<open>int\<close> rejects, and the fields
  \<open>vmin\<close> and \<open>vmax\<close> hold \<open>0\<close> and \<open>255\<close>, which \<open>float\<close> accepts: all four values are
  passed as unset, the two that convert as well.
\<close>

theorem raster_fields_counterexample:
  "py_int ''1,2'' = None
   \<and> py_float ''0'' = Some (Finite 0 0)
   \<and> py_float ''255'' = Some (Finite 255 0)
   \<and> raster_vis_params py_int py_float ''1,2'' ''0'' ''255'' []
       = \<lparr>band = None, vis_min = None, vis_max = None, vis_nodata = None\<rparr>"
  by (simp add: raster_vis_params_def convert_field_def parse_defs)

text \<open>
  C6, amended. Whatever the four texts are, the block ends without an exception and
  gives four values. The fields are converted in the order band, vmin, vmax, nodata, and
  the first text that is rejected ends the conversions: the band is passed with its
  value as a field by itself, and each later field is passed with its own value when
  every field before it converts, and as unset otherwise.
\<close>

theorem raster_fields_until_first_failure:
  "band (raster_vis_params to_int to_float bands vmin vmax nodata) = field_value to_int bands
   \<and> vis_min (raster_vis_params to_int to_float bands vmin vmax nodata)
       = (if converts to_int bands then field_value to_float vmin else None)
   \<and> vis_max (raster_vis_params to_int to_float bands vmin vmax nodata)
       = (if converts to_int bands \<and> converts to_float vmin
          then field_value to_float vmax else None)
   \<and> vis_nodata (raster_vis_params to_int to_float bands vmin vmax nodata)
       = (if converts to_int bands \<and> converts to_float vmin \<and> converts to_float vmax
          then field_value to_float nodata else None)"
  by (auto simp: raster_vis_params_def convert_field_def converts_def field_value_def
      split: option.splits)

theorem raster_fields_until_first_failure_witness:
  "converts py_int ''3'' \<and> converts py_float ''0''
   \<and> raster_vis_params py_int py_float ''3'' ''0'' ''abc'' ''255''
       = \<lparr>band = Some 3, vis_min = Some (Finite 0 0), vis_max = None, vis_nodata = None\<rparr>"
proof -
  have a: "py_int ''3'' = Some 3" by (simp add: parse_defs)
  have b: "py_float ''0'' = Some (Finite 0 0)" by (simp add: parse_defs)
  have c: "py_float ''abc'' = None" by (simp add: parse_defs)
  have eq: "r = \<lparr>band = band r, vis_min = vis_min r, vis_max = vis_max r,
                 vis_nodata = vis_nodata r\<rparr>" for r :: "pyfloat raster_vis"
    by simp
  from raster_fields_until_first_failure [of py_int py_float "''3''" "''0''" "''abc''" "''255''"]
    a b c
  show ?thesis
    by (subst eq) (simp add: converts_def field_value_def)
qed

end
